theory Spec2Isabelle
  imports Main "HOL-Library.Sublist"
begin

section \<open>SimpleSignal: a callback registry and its priority-ordered variant\<close>

text \<open>
  The header \<^verbatim>\<open>SimpleSignal.h\<close> declares two class templates in namespace
  \<^verbatim>\<open>signals\<close>: \<^verbatim>\<open>Signal\<close>, which keeps its listeners in a \<^verbatim>\<open>std::map\<close> keyed by
  identifier, and \<^verbatim>\<open>PrioritySignal\<close>, which keeps \<^verbatim>\<open>PrioritizedCallback\<close> objects in a
  \<^verbatim>\<open>std::list\<close> that is sorted after every insertion. Both are embedded here with explicit
  state passing: every member function takes the object and returns the object it leaves
  behind, next to its return value.
\<close>

subsection \<open>Identifiers\<close>

text \<open>
  \<^verbatim>\<open>typedef int callback_id;\<close> The counter \<^verbatim>\<open>callbackId\<close> is an \<^verbatim>\<open>int\<close> as well and is
  only ever changed by \<^verbatim>\<open>++callbackId\<close>. Incrementing a signed \<^verbatim>\<open>int\<close> that holds
  \<^verbatim>\<open>INT_MAX\<close> is undefined behaviour in C++; the model makes that a result of its own
  (\<open>Inl SignedOverflow\<close>), so nothing is ever claimed about a program that overflows. The
  width is taken to be 32 bits.
\<close>

type_synonym callback_id = int

datatype fault = SignedOverflow

definition INT_MAX :: int where
  "INT_MAX = 2147483647"

definition pre_increment :: "int \<Rightarrow> fault + int" where
  "pre_increment n = (if INT_MAX \<le> n then Inl SignedOverflow else Inr (n + 1))"

subsection \<open>Listeners\<close>

text \<open>
  \<^verbatim>\<open>typedef std::function<void(callback_types...)> callback;\<close> A listener receives the
  argument tuple \<open>'a\<close> and returns nothing; what it does, it does to the rest of the program,
  whose state is \<open>'w\<close>, or it throws an exception \<open>'e\<close> (an empty \<^verbatim>\<open>std::function\<close> throws
  \<^verbatim>\<open>std::bad_function_call\<close> when called, so it is a listener of this kind too).
  The state \<open>'w\<close> does not contain the signal that is dispatching: a listener that calls
  \<^verbatim>\<open>add\<close>, \<^verbatim>\<open>remove\<close> or \<^verbatim>\<open>removeAll\<close> on the very container the running loop iterates
  over is outside this model.
\<close>

type_synonym ('a, 'w, 'e) callback = "'a \<Rightarrow> 'w \<Rightarrow> 'e + 'w"

text \<open>
  What a dispatch leaves behind: the signal object, the calls the loop made (identifier of
  the entry called and the arguments passed, in the order of the calls), and either the
  exception that left \<^verbatim>\<open>dispatch\<close> or the state of the rest of the program on return.
\<close>

record ('s, 'a, 'w, 'e) dispatched =
  after :: 's
  calls :: "(callback_id \<times> 'a) list"
  outcome :: "'e + 'w"

subsection \<open>The part of \<^verbatim>\<open>std::map\<close> that \<^verbatim>\<open>Signal\<close> uses\<close>

text \<open>
  \<^verbatim>\<open>typedef map<callback_id,callback> callback_map;\<close> The container belongs to the
  standard library. It is represented by the sequence its iterators walk through: the
  elements in ascending order of their keys. \<^verbatim>\<open>insert\<close> puts a pair at its place in that
  order and does nothing when the key is already there; \<^verbatim>\<open>erase(key)\<close> takes out the
  element with that key, if any; \<^verbatim>\<open>clear\<close> leaves the empty sequence.
\<close>

fun map_insert :: "callback_id \<Rightarrow> 'v \<Rightarrow> (callback_id \<times> 'v) list \<Rightarrow> (callback_id \<times> 'v) list" where
  "map_insert k v [] = [(k, v)]"
| "map_insert k v (p # m) =
     (if fst p = k then p # m
      else if k < fst p then (k, v) # p # m
      else p # map_insert k v m)"

fun map_erase :: "callback_id \<Rightarrow> (callback_id \<times> 'v) list \<Rightarrow> (callback_id \<times> 'v) list" where
  "map_erase k [] = []"
| "map_erase k (p # m) = (if fst p = k then m else p # map_erase k m)"

definition map_clear :: "(callback_id \<times> 'v) list \<Rightarrow> (callback_id \<times> 'v) list" where
  "map_clear m = []"

subsection \<open>\<^verbatim>\<open>Signal\<close>\<close>

record ('a, 'w, 'e) Signal =
  callbackId :: int
  callbackMap :: "(callback_id \<times> ('a, 'w, 'e) callback) list"

text \<open>\<^verbatim>\<open>Signal() : callbackId(0) {}\<close>\<close>

definition Signal_init :: "('a, 'w, 'e) Signal" where
  "Signal_init = \<lparr>Signal.callbackId = 0, callbackMap = []\<rparr>"

definition Signal_add ::
  "('a, 'w, 'e) Signal \<Rightarrow> ('a, 'w, 'e) callback \<Rightarrow> fault + (callback_id \<times> ('a, 'w, 'e) Signal)" where
  "Signal_add s cb =
     (case pre_increment (Signal.callbackId s) of
        Inl f \<Rightarrow> Inl f
      | Inr newId \<Rightarrow>
          Inr (newId, s\<lparr>Signal.callbackId := newId,
                         callbackMap := map_insert newId cb (callbackMap s)\<rparr>))"

definition Signal_remove :: "('a, 'w, 'e) Signal \<Rightarrow> callback_id \<Rightarrow> ('a, 'w, 'e) Signal" where
  "Signal_remove s cbId = s\<lparr>callbackMap := map_erase cbId (callbackMap s)\<rparr>"

definition Signal_removeAll :: "('a, 'w, 'e) Signal \<Rightarrow> ('a, 'w, 'e) Signal" where
  "Signal_removeAll s = s\<lparr>callbackMap := map_clear (callbackMap s)\<rparr>"

text \<open>
  \<^verbatim>\<open>for(auto cb : callbackMap) { cb.second(cb_types...); }\<close> The loop takes the elements
  in the order of the map and calls each; an exception thrown by a call is not caught, so
  it ends the loop and leaves \<^verbatim>\<open>dispatch\<close>.
\<close>

fun Signal_dispatch_loop ::
  "(callback_id \<times> ('a, 'w, 'e) callback) list \<Rightarrow> 'a \<Rightarrow> 'w \<Rightarrow> (callback_id \<times> 'a) list \<times> ('e + 'w)" where
  "Signal_dispatch_loop [] cb_types w = ([], Inr w)"
| "Signal_dispatch_loop (cb # rest) cb_types w =
     (case snd cb cb_types w of
        Inl e \<Rightarrow> ([(fst cb, cb_types)], Inl e)
      | Inr w' \<Rightarrow>
          (case Signal_dispatch_loop rest cb_types w' of
             (made, r) \<Rightarrow> ((fst cb, cb_types) # made, r)))"

definition Signal_dispatch ::
  "('a, 'w, 'e) Signal \<Rightarrow> 'a \<Rightarrow> 'w \<Rightarrow> (('a, 'w, 'e) Signal, 'a, 'w, 'e) dispatched" where
  "Signal_dispatch s cb_types w =
     (case Signal_dispatch_loop (callbackMap s) cb_types w of
        (made, r) \<Rightarrow> \<lparr>after = s, calls = made, outcome = r\<rparr>)"

subsection \<open>\<^verbatim>\<open>PrioritizedCallback\<close> and \<^verbatim>\<open>PriorityCompare\<close>\<close>

text \<open>
  The three members are private, set by the constructor and read through
  \<^verbatim>\<open>getCallback\<close>, \<^verbatim>\<open>getPriority\<close> and \<^verbatim>\<open>getCallbackId\<close>; the fields of the record
  carry the names of these readers.
\<close>

record ('a, 'w, 'e) PrioritizedCallback =
  getCallback :: "('a, 'w, 'e) callback"
  getPriority :: int
  getCallbackId :: callback_id

definition PriorityCompare ::
  "('a, 'w, 'e) PrioritizedCallback \<Rightarrow> ('a, 'w, 'e) PrioritizedCallback \<Rightarrow> bool" where
  "PriorityCompare a b = (getPriority a > getPriority b)"

subsection \<open>The part of \<^verbatim>\<open>std::list\<close> that \<^verbatim>\<open>PrioritySignal\<close> uses\<close>

text \<open>
  \<^verbatim>\<open>emplace_back\<close> appends an element, \<^verbatim>\<open>erase\<close> takes out the element an iterator
  points at, \<^verbatim>\<open>clear\<close> leaves the empty list. \<^verbatim>\<open>sort(cmp)\<close> belongs to the standard
  library, which requires it to sort by \<open>cmp\<close> and to be stable: elements that \<open>cmp\<close>
  does not order keep their relative order. For a strict weak order the result is
  determined by that requirement; it is computed here by inserting the elements, last one
  first, each in front of the first element that \<open>cmp\<close> does not put before it.
\<close>

fun sort_insert :: "('x \<Rightarrow> 'x \<Rightarrow> bool) \<Rightarrow> 'x \<Rightarrow> 'x list \<Rightarrow> 'x list" where
  "sort_insert cmp x [] = [x]"
| "sort_insert cmp x (y # ys) =
     (if cmp y x then y # sort_insert cmp x ys else x # y # ys)"

fun list_sort :: "('x \<Rightarrow> 'x \<Rightarrow> bool) \<Rightarrow> 'x list \<Rightarrow> 'x list" where
  "list_sort cmp [] = []"
| "list_sort cmp (x # xs) = sort_insert cmp x (list_sort cmp xs)"

subsection \<open>\<^verbatim>\<open>PrioritySignal\<close>\<close>

record ('a, 'w, 'e) PrioritySignal =
  callbackId :: int
  callbackList :: "('a, 'w, 'e) PrioritizedCallback list"

text \<open>
  \<^verbatim>\<open>PrioritySignal\<close> declares no constructor and \<^verbatim>\<open>int callbackId;\<close> has no initialiser.
  The list starts empty. The counter starts at zero only where the object is
  zero-initialised (static storage, or value-initialisation as in \<^verbatim>\<open>PrioritySignal<int> s{}\<close>);
  in \<^verbatim>\<open>PrioritySignal<int> s;\<close> with automatic storage, or after \<^verbatim>\<open>new PrioritySignal<int>\<close>,
  its value is indeterminate. The value the counter starts with is therefore a parameter.

  \<^verbatim>\<open>add\<close> takes its listener as a plain function pointer
  (\<^verbatim>\<open>typedef void (*callback)(callback_types...)\<close>) and stores it as the
  \<^verbatim>\<open>std::function\<close> of \<^verbatim>\<open>PrioritizedCallback\<close>; a null pointer gives an empty
  \<^verbatim>\<open>std::function\<close>, a listener that throws. The second parameter has the default 0:
  \<^verbatim>\<open>add(cb)\<close> is \<open>PrioritySignal_add s cb 0\<close>.
\<close>

definition PrioritySignal_init :: "int \<Rightarrow> ('a, 'w, 'e) PrioritySignal" where
  "PrioritySignal_init c0 = \<lparr>PrioritySignal.callbackId = c0, callbackList = []\<rparr>"

definition PrioritySignal_add ::
  "('a, 'w, 'e) PrioritySignal \<Rightarrow> ('a, 'w, 'e) callback \<Rightarrow> int \<Rightarrow>
     fault + (callback_id \<times> ('a, 'w, 'e) PrioritySignal)" where
  "PrioritySignal_add s cb priority =
     (case pre_increment (PrioritySignal.callbackId s) of
        Inl f \<Rightarrow> Inl f
      | Inr newId \<Rightarrow>
          Inr (newId,
               s\<lparr>PrioritySignal.callbackId := newId,
                 callbackList :=
                   list_sort PriorityCompare
                     (callbackList s @
                        [\<lparr>getCallback = cb, getPriority = priority, getCallbackId = newId\<rparr>])\<rparr>))"

text \<open>
  \<^verbatim>\<open>for(auto i = callbackList.begin(); i != callbackList.end();)\<close>: an element whose
  identifier is the one given is erased and the loop goes on with the element after it;
  any other element is stepped over.
\<close>

fun PrioritySignal_remove_loop ::
  "callback_id \<Rightarrow> ('a, 'w, 'e) PrioritizedCallback list \<Rightarrow> ('a, 'w, 'e) PrioritizedCallback list" where
  "PrioritySignal_remove_loop cbId [] = []"
| "PrioritySignal_remove_loop cbId (i # rest) =
     (if getCallbackId i = cbId then PrioritySignal_remove_loop cbId rest
      else i # PrioritySignal_remove_loop cbId rest)"

definition PrioritySignal_remove ::
  "('a, 'w, 'e) PrioritySignal \<Rightarrow> callback_id \<Rightarrow> ('a, 'w, 'e) PrioritySignal" where
  "PrioritySignal_remove s cbId =
     s\<lparr>callbackList := PrioritySignal_remove_loop cbId (callbackList s)\<rparr>"

definition PrioritySignal_removeAll :: "('a, 'w, 'e) PrioritySignal \<Rightarrow> ('a, 'w, 'e) PrioritySignal" where
  "PrioritySignal_removeAll s = s\<lparr>callbackList := []\<rparr>"

text \<open>
  \<^verbatim>\<open>for(PrioritizedCallback<callback_types...> priorityCallback : callbackList)
    priorityCallback.getCallback()(cb_types...);\<close>
\<close>

fun PrioritySignal_dispatch_loop ::
  "('a, 'w, 'e) PrioritizedCallback list \<Rightarrow> 'a \<Rightarrow> 'w \<Rightarrow> (callback_id \<times> 'a) list \<times> ('e + 'w)" where
  "PrioritySignal_dispatch_loop [] cb_types w = ([], Inr w)"
| "PrioritySignal_dispatch_loop (priorityCallback # rest) cb_types w =
     (case getCallback priorityCallback cb_types w of
        Inl e \<Rightarrow> ([(getCallbackId priorityCallback, cb_types)], Inl e)
      | Inr w' \<Rightarrow>
          (case PrioritySignal_dispatch_loop rest cb_types w' of
             (made, r) \<Rightarrow> ((getCallbackId priorityCallback, cb_types) # made, r)))"

definition PrioritySignal_dispatch ::
  "('a, 'w, 'e) PrioritySignal \<Rightarrow> 'a \<Rightarrow> 'w \<Rightarrow> (('a, 'w, 'e) PrioritySignal, 'a, 'w, 'e) dispatched" where
  "PrioritySignal_dispatch s cb_types w =
     (case PrioritySignal_dispatch_loop (callbackList s) cb_types w of
        (made, r) \<Rightarrow> \<lparr>after = s, calls = made, outcome = r\<rparr>)"

subsection \<open>Client programs\<close>

text \<open>
  A client of one signal object is a sequence of calls of its public member functions.
  Running it gives the identifiers that the \<^verbatim>\<open>add\<close> calls returned, in the order of the
  calls, and the object at the end; it has no result when an increment overflows.
\<close>

datatype ('a, 'w, 'e) call =
  Add "('a, 'w, 'e) callback"
| Remove callback_id
| RemoveAll
| Dispatch 'a 'w

fun Signal_call ::
  "('a, 'w, 'e) Signal \<Rightarrow> ('a, 'w, 'e) call \<Rightarrow> fault + (callback_id list \<times> ('a, 'w, 'e) Signal)" where
  "Signal_call s (Add cb) =
     (case Signal_add s cb of Inl f \<Rightarrow> Inl f | Inr (newId, s') \<Rightarrow> Inr ([newId], s'))"
| "Signal_call s (Remove cbId) = Inr ([], Signal_remove s cbId)"
| "Signal_call s RemoveAll = Inr ([], Signal_removeAll s)"
| "Signal_call s (Dispatch cb_types w) = Inr ([], after (Signal_dispatch s cb_types w))"

fun Signal_run ::
  "('a, 'w, 'e) Signal \<Rightarrow> ('a, 'w, 'e) call list \<Rightarrow> fault + (callback_id list \<times> ('a, 'w, 'e) Signal)" where
  "Signal_run s [] = Inr ([], s)"
| "Signal_run s (c # cs) =
     (case Signal_call s c of
        Inl f \<Rightarrow> Inl f
      | Inr (ids, s') \<Rightarrow>
          (case Signal_run s' cs of
             Inl f \<Rightarrow> Inl f
           | Inr (ids', s'') \<Rightarrow> Inr (ids @ ids', s'')))"

text \<open>The same for \<^verbatim>\<open>PrioritySignal\<close>, whose \<^verbatim>\<open>add\<close> takes the priority as well.\<close>

datatype ('a, 'w, 'e) pcall =
  PAdd "('a, 'w, 'e) callback" int
| PRemove callback_id
| PRemoveAll
| PDispatch 'a 'w

fun PrioritySignal_call ::
  "('a, 'w, 'e) PrioritySignal \<Rightarrow> ('a, 'w, 'e) pcall \<Rightarrow>
     fault + (callback_id list \<times> ('a, 'w, 'e) PrioritySignal)" where
  "PrioritySignal_call s (PAdd cb priority) =
     (case PrioritySignal_add s cb priority of
        Inl f \<Rightarrow> Inl f
      | Inr (newId, s') \<Rightarrow> Inr ([newId], s'))"
| "PrioritySignal_call s (PRemove cbId) = Inr ([], PrioritySignal_remove s cbId)"
| "PrioritySignal_call s PRemoveAll = Inr ([], PrioritySignal_removeAll s)"
| "PrioritySignal_call s (PDispatch cb_types w) =
     Inr ([], after (PrioritySignal_dispatch s cb_types w))"

fun PrioritySignal_run ::
  "('a, 'w, 'e) PrioritySignal \<Rightarrow> ('a, 'w, 'e) pcall list \<Rightarrow>
     fault + (callback_id list \<times> ('a, 'w, 'e) PrioritySignal)" where
  "PrioritySignal_run s [] = Inr ([], s)"
| "PrioritySignal_run s (c # cs) =
     (case PrioritySignal_call s c of
        Inl f \<Rightarrow> Inl f
      | Inr (ids, s') \<Rightarrow>
          (case PrioritySignal_run s' cs of
             Inl f \<Rightarrow> Inl f
           | Inr (ids', s'') \<Rightarrow> Inr (ids @ ids', s'')))"

text \<open>
  Two listeners to run the definitions on: one appends its tag and the argument it was
  given to a log (the log is the state of the rest of the program), one throws.
\<close>

definition logging_listener :: "nat \<Rightarrow> (int, (nat \<times> int) list, string) callback" where
  "logging_listener tag x w = Inr (w @ [(tag, x)])"

definition throwing_listener :: "(int, (nat \<times> int) list, string) callback" where
  "throwing_listener x w = Inl ''thrown''"

subsection \<open>Invariants of the two containers\<close>

text \<open>
  What holds of a \<^verbatim>\<open>Signal\<close> in every state a client can bring it to: the keys of the
  map ascend strictly, and none exceeds the counter. For a \<^verbatim>\<open>PrioritySignal\<close>: the list
  descends in priority, the identifiers of the entries of one priority ascend, no identifier
  occurs twice, and none exceeds the counter.
\<close>

definition Signal_inv :: "('a, 'w, 'e) Signal \<Rightarrow> bool" where
  "Signal_inv s \<longleftrightarrow>
     sorted_wrt (<) (map fst (callbackMap s)) \<and>
     (\<forall>k\<in>fst ` set (callbackMap s). k \<le> Signal.callbackId s)"

definition PrioritySignal_inv :: "('a, 'w, 'e) PrioritySignal \<Rightarrow> bool" where
  "PrioritySignal_inv s \<longleftrightarrow>
     sorted_wrt (\<lambda>a b. getPriority a \<ge> getPriority b) (callbackList s) \<and>
     (\<forall>p. sorted_wrt (<) (map getCallbackId (filter (\<lambda>e. getPriority e = p) (callbackList s)))) \<and>
     distinct (map getCallbackId (callbackList s)) \<and>
     (\<forall>e\<in>set (callbackList s). getCallbackId e \<le> PrioritySignal.callbackId s)"

section \<open>Auxiliary facts\<close>

subsection \<open>The stable sort by priority\<close>

text \<open>
  \<open>list_sort PriorityCompare\<close> has the same elements, descends in priority, and keeps the
  entries of each priority in the order they had.
\<close>

lemma set_sort_insert: "set (sort_insert cmp x xs) = insert x (set xs)"
  by (induction xs) auto

lemma set_list_sort: "set (list_sort cmp xs) = set xs"
  by (induction xs) (auto simp: set_sort_insert)

lemma sorted_sort_insert:
  "sorted_wrt (\<lambda>a b. getPriority a \<ge> getPriority b) xs \<Longrightarrow>
   sorted_wrt (\<lambda>a b. getPriority a \<ge> getPriority b) (sort_insert PriorityCompare x xs)"
  by (induction xs) (auto simp: set_sort_insert PriorityCompare_def)

lemma sorted_list_sort:
  "sorted_wrt (\<lambda>a b. getPriority a \<ge> getPriority b) (list_sort PriorityCompare xs)"
  by (induction xs) (auto simp: sorted_sort_insert)

lemma filter_sort_insert:
  "sorted_wrt (\<lambda>a b. getPriority a \<ge> getPriority b) xs \<Longrightarrow>
   filter (\<lambda>e. getPriority e = p) (sort_insert PriorityCompare x xs) =
   filter (\<lambda>e. getPriority e = p) (x # xs)"
proof (induction xs)
  case Nil
  then show ?case by simp
next
  case (Cons y ys)
  show ?case
  proof (cases "PriorityCompare y x")
    case True
    then have "getPriority y \<noteq> getPriority x" by (simp add: PriorityCompare_def)
    with True Cons show ?thesis by auto
  next
    case False
    then show ?thesis by simp
  qed
qed

lemma filter_list_sort:
  "filter (\<lambda>e. getPriority e = p) (list_sort PriorityCompare xs) = filter (\<lambda>e. getPriority e = p) xs"
  by (induction xs) (simp_all add: filter_sort_insert sorted_list_sort)

lemma remove_loop_filter:
  "PrioritySignal_remove_loop cbId xs = filter (\<lambda>e. getCallbackId e \<noteq> cbId) xs"
  by (induction xs) auto

subsection \<open>Identifiers, the map, and the invariant of \<^verbatim>\<open>Signal\<close>\<close>

lemma upto_append_upto: "a \<le> b \<Longrightarrow> b \<le> c \<Longrightarrow> [a + 1..b] @ [b + 1..c] = [a + 1..c]"
proof (cases "a = b")
  case True
  then show ?thesis by simp
next
  case False
  assume "a \<le> b" "b \<le> c"
  with False upto_split2 [of "a + 1" b c] show ?thesis by simp
qed

lemma filter_mem_sorted:
  "sorted_wrt (<) xs \<Longrightarrow> sorted_wrt (<) ys \<Longrightarrow> set xs \<subseteq> set ys \<Longrightarrow>
   filter (\<lambda>i. i \<in> set xs) ys = (xs :: int list)"
proof (rule sorted_distinct_set_unique)
  assume xs: "sorted_wrt (<) xs" and ys: "sorted_wrt (<) ys" and sub: "set xs \<subseteq> set ys"
  from ys have "sorted_wrt (<) (filter (\<lambda>i. i \<in> set xs) ys)"
    by (rule sorted_wrt_filter)
  then show "sorted (filter (\<lambda>i. i \<in> set xs) ys)" "distinct (filter (\<lambda>i. i \<in> set xs) ys)"
    by (simp_all add: strict_sorted_iff)
  from xs show "sorted xs" "distinct xs"
    by (simp_all add: strict_sorted_iff)
  from sub show "set (filter (\<lambda>i. i \<in> set xs) ys) = set xs"
    by auto
qed

lemma map_insert_last: "\<forall>k\<in>fst ` set m. k < n \<Longrightarrow> map_insert n v m = m @ [(n, v)]"
  by (induction m) auto

lemma map_erase_absent: "k \<notin> fst ` set m \<Longrightarrow> map_erase k m = m"
  by (induction m) auto

lemma map_erase_keys:
  "sorted_wrt (<) (map fst m) \<Longrightarrow> map fst (map_erase k m) = filter (\<lambda>j. j \<noteq> k) (map fst m)"
proof (induction m)
  case Nil
  then show ?case by simp
next
  case (Cons p m)
  show ?case
  proof (cases "fst p = k")
    case True
    with Cons.prems have "\<forall>j\<in>set (map fst m). j \<noteq> k" by auto
    then have "filter (\<lambda>j. j \<noteq> k) (map fst m) = map fst m" by (simp add: filter_id_conv)
    with True show ?thesis by simp
  next
    case False
    with Cons show ?thesis by simp
  qed
qed

lemma map_erase_subset: "set (map_erase k m) \<subseteq> set m"
  by (induction m) auto

lemma Signal_inv_init: "Signal_inv Signal_init"
  by (simp add: Signal_inv_def Signal_init_def)

lemma Signal_dispatch_after: "after (Signal_dispatch s x w) = s"
  by (simp add: Signal_dispatch_def split: prod.splits)

lemma Signal_add_inv:
  assumes "Signal_inv s" and "Signal_add s cb = Inr (newId, s')"
  shows "Signal_inv s'" and "newId = Signal.callbackId s + 1" and "Signal.callbackId s' = newId"
    and "callbackMap s' = callbackMap s @ [(newId, cb)]"
proof -
  from assms(2) have n: "newId = Signal.callbackId s + 1"
    and s': "s' = s\<lparr>Signal.callbackId := newId, callbackMap := map_insert newId cb (callbackMap s)\<rparr>"
    by (auto simp: Signal_add_def pre_increment_def split: if_splits)
  from assms(1) n have "\<forall>k\<in>fst ` set (callbackMap s). k < newId"
    by (auto simp: Signal_inv_def)
  then have m: "map_insert newId cb (callbackMap s) = callbackMap s @ [(newId, cb)]"
    by (rule map_insert_last)
  show "newId = Signal.callbackId s + 1" by (rule n)
  show ci: "Signal.callbackId s' = newId" by (simp add: s')
  show cm: "callbackMap s' = callbackMap s @ [(newId, cb)]" by (simp add: s' m)
  from assms(1) n show "Signal_inv s'"
    unfolding Signal_inv_def ci cm by (auto simp: sorted_wrt_append)
qed

lemma Signal_remove_inv:
  assumes "Signal_inv s"
  shows "Signal_inv (Signal_remove s cbId)"
proof -
  from assms have srt: "sorted_wrt (<) (map fst (callbackMap s))"
    and bnd: "\<forall>k\<in>fst ` set (callbackMap s). k \<le> Signal.callbackId s"
    by (simp_all add: Signal_inv_def)
  from srt have "sorted_wrt (<) (map fst (map_erase cbId (callbackMap s)))"
    by (simp add: map_erase_keys sorted_wrt_filter)
  moreover from bnd map_erase_subset [of cbId "callbackMap s"]
  have "\<forall>k\<in>fst ` set (map_erase cbId (callbackMap s)). k \<le> Signal.callbackId s"
    by blast
  ultimately show ?thesis
    by (simp add: Signal_inv_def Signal_remove_def)
qed

lemma Signal_removeAll_inv: "Signal_inv (Signal_removeAll s)"
  by (simp add: Signal_inv_def Signal_removeAll_def map_clear_def)

lemma Signal_call_inv:
  assumes "Signal_inv s" and "Signal_call s c = Inr (ids, s')"
  shows "Signal_inv s' \<and> Signal.callbackId s \<le> Signal.callbackId s' \<and>
         ids = [Signal.callbackId s + 1..Signal.callbackId s'] \<and>
         fst ` set (callbackMap s') \<subseteq> fst ` set (callbackMap s) \<union> set ids"
proof (cases c)
  case (Add cb)
  with assms(2) obtain newId where a: "Signal_add s cb = Inr (newId, s')" and i: "ids = [newId]"
    by (auto split: sum.splits)
  from Signal_add_inv [OF assms(1) a] i show ?thesis by auto
next
  case (Remove cbId)
  with assms have s': "s' = Signal_remove s cbId" and i: "ids = []" by simp_all
  from map_erase_subset [of cbId "callbackMap s"]
  have "fst ` set (callbackMap s') \<subseteq> fst ` set (callbackMap s)"
    by (auto simp: s' Signal_remove_def)
  with assms(1) show ?thesis
    by (simp add: i s' Signal_remove_inv) (simp add: Signal_remove_def)
next
  case RemoveAll
  with assms show ?thesis
    by (auto simp: Signal_removeAll_inv) (auto simp: Signal_removeAll_def map_clear_def)
next
  case (Dispatch x w)
  with assms show ?thesis by (auto simp: Signal_dispatch_after)
qed

lemma Signal_run_inv:
  "Signal_inv s \<Longrightarrow> Signal_run s cs = Inr (ids, s') \<Longrightarrow>
   Signal_inv s' \<and> Signal.callbackId s \<le> Signal.callbackId s' \<and>
   ids = [Signal.callbackId s + 1..Signal.callbackId s'] \<and>
   fst ` set (callbackMap s') \<subseteq> fst ` set (callbackMap s) \<union> set ids"
proof (induction cs arbitrary: s ids)
  case Nil
  then show ?case by simp
next
  case (Cons c cs)
  from Cons.prems(2) obtain ids1 s1 ids2 where
    c: "Signal_call s c = Inr (ids1, s1)" and r: "Signal_run s1 cs = Inr (ids2, s')"
    and ids: "ids = ids1 @ ids2"
    by (auto split: sum.splits)
  note h1 = Signal_call_inv [OF Cons.prems(1) c]
  then have inv1: "Signal_inv s1" by simp
  note h2 = Cons.IH [OF inv1 r]
  from h1 h2 have i: "ids = [Signal.callbackId s + 1..Signal.callbackId s']"
    by (simp add: ids upto_append_upto)
  from h1 h2 have le: "Signal.callbackId s \<le> Signal.callbackId s'" by simp
  from h1 h2 have "fst ` set (callbackMap s') \<subseteq> fst ` set (callbackMap s) \<union> (set ids1 \<union> set ids2)"
    by blast
  then have sub: "fst ` set (callbackMap s') \<subseteq> fst ` set (callbackMap s) \<union> set ids"
    by (simp add: ids)
  from h2 i le sub show ?case by simp
qed

subsection \<open>The dispatch loops\<close>

text \<open>
  The calls a loop makes are always an initial part of the container's sequence; they are
  the whole of it when the loop returns, and end with the throwing listener otherwise.
\<close>

lemma Signal_dispatch_loop_Cons:
  "Signal_dispatch_loop (cb # rest) x w =
     (case snd cb x w of
        Inl e \<Rightarrow> ([(fst cb, x)], Inl e)
      | Inr w' \<Rightarrow> ((fst cb, x) # fst (Signal_dispatch_loop rest x w'),
                  snd (Signal_dispatch_loop rest x w')))"
  by (simp add: split_beta split: sum.splits)

lemma Signal_dispatch_loop_prefix:
  "prefix (fst (Signal_dispatch_loop m x w)) (map (\<lambda>cb. (fst cb, x)) m)"
proof (induction m arbitrary: w)
  case Nil
  then show ?case by simp
next
  case (Cons cb m)
  then show ?case
    by (cases "snd cb x w") (simp_all add: Signal_dispatch_loop_Cons del: Signal_dispatch_loop.simps(2))
qed

lemma Signal_dispatch_loop_returns:
  "snd (Signal_dispatch_loop m x w) = Inr w' \<Longrightarrow>
   fst (Signal_dispatch_loop m x w) = map (\<lambda>cb. (fst cb, x)) m"
proof (induction m arbitrary: w)
  case Nil
  then show ?case by simp
next
  case (Cons cb m)
  then show ?case
    by (cases "snd cb x w") (simp_all add: Signal_dispatch_loop_Cons del: Signal_dispatch_loop.simps(2))
qed

lemma Signal_dispatch_loop_worlds:
  "snd (Signal_dispatch_loop m x w) = Inr w' \<Longrightarrow>
   \<exists>ws. length ws = Suc (length m) \<and> ws ! 0 = w \<and> ws ! length m = w' \<and>
        (\<forall>i<length m. snd (m ! i) x (ws ! i) = Inr (ws ! Suc i))"
proof (induction m arbitrary: w)
  case Nil
  then have "length [w] = Suc 0 \<and> [w] ! 0 = w \<and> [w] ! 0 = w'" by simp
  then show ?case by (intro exI [of _ "[w]"]) simp
next
  case (Cons cb m)
  from Cons.prems obtain w1 where c: "snd cb x w = Inr w1"
    and r: "snd (Signal_dispatch_loop m x w1) = Inr w'"
    by (cases "snd cb x w") (simp_all add: Signal_dispatch_loop_Cons del: Signal_dispatch_loop.simps(2))
  from Cons.IH [OF r] obtain ws where ws: "length ws = Suc (length m)" "ws ! 0 = w1"
    "ws ! length m = w'" "\<forall>i<length m. snd (m ! i) x (ws ! i) = Inr (ws ! Suc i)"
    by blast
  have "\<forall>i<length (cb # m). snd ((cb # m) ! i) x ((w # ws) ! i) = Inr ((w # ws) ! Suc i)"
  proof (intro allI impI)
    fix i assume "i < length (cb # m)"
    then show "snd ((cb # m) ! i) x ((w # ws) ! i) = Inr ((w # ws) ! Suc i)"
      using c ws by (cases i) simp_all
  qed
  with ws show ?case
    by (intro exI [of _ "w # ws"]) simp
qed


lemma PrioritySignal_dispatch_loop_eq:
  "PrioritySignal_dispatch_loop l x w =
   Signal_dispatch_loop (map (\<lambda>p. (getCallbackId p, getCallback p)) l) x w"
  by (induction l arbitrary: w) (simp_all add: split_beta split: sum.splits)



lemma Signal_dispatch_loop_all_return:
  "length ws = Suc (length m) \<Longrightarrow>
   \<forall>n<length m. snd (m ! n) x (ws ! n) = Inr (ws ! Suc n) \<Longrightarrow>
   Signal_dispatch_loop m x (ws ! 0) = (map (\<lambda>cb. (fst cb, x)) m, Inr (ws ! length m))"
proof (induction m arbitrary: ws)
  case Nil
  then show ?case by simp
next
  case (Cons c m)
  from Cons.prems(1) obtain a ws' where ws: "ws = a # ws'" and len: "length ws' = Suc (length m)"
    by (cases ws) simp_all
  from Cons.prems(2) have "snd ((c # m) ! 0) x (ws ! 0) = Inr (ws ! Suc 0)" by blast
  then have c: "snd c x a = Inr (ws' ! 0)" by (simp add: ws)
  have "\<forall>n<length m. snd (m ! n) x (ws' ! n) = Inr (ws' ! Suc n)"
  proof (intro allI impI)
    fix n assume "n < length m"
    then have "Suc n < length (c # m)" by simp
    with Cons.prems(2) have "snd ((c # m) ! Suc n) x (ws ! Suc n) = Inr (ws ! Suc (Suc n))"
      by blast
    then show "snd (m ! n) x (ws' ! n) = Inr (ws' ! Suc n)" by (simp add: ws)
  qed
  from Cons.IH [OF len this] c show ?case
    by (simp add: ws Signal_dispatch_loop_Cons del: Signal_dispatch_loop.simps(2))
qed

subsection \<open>The invariant of \<^verbatim>\<open>PrioritySignal\<close>\<close>

lemma distinct_map_sort_insert:
  "distinct (map f (sort_insert cmp x xs)) \<longleftrightarrow> f x \<notin> f ` set xs \<and> distinct (map f xs)"
  by (induction xs) (auto simp: set_sort_insert)

lemma distinct_map_list_sort: "distinct (map f (list_sort cmp xs)) \<longleftrightarrow> distinct (map f xs)"
  by (induction xs) (auto simp: distinct_map_sort_insert set_list_sort)

lemma PrioritySignal_inv_init: "PrioritySignal_inv (PrioritySignal_init c0)"
  by (simp add: PrioritySignal_inv_def PrioritySignal_init_def)

lemma PrioritySignal_dispatch_after: "after (PrioritySignal_dispatch s x w) = s"
  by (simp add: PrioritySignal_dispatch_def split: prod.splits)

lemma PrioritySignal_add_inv:
  assumes "PrioritySignal_inv s" and "PrioritySignal_add s cb pr = Inr (newId, s')"
  shows "PrioritySignal_inv s'" and "newId = PrioritySignal.callbackId s + 1"
    and "PrioritySignal.callbackId s' = newId"
    and "set (callbackList s') =
         insert \<lparr>getCallback = cb, getPriority = pr, getCallbackId = newId\<rparr> (set (callbackList s))"
proof -
  let ?e = "\<lparr>getCallback = cb, getPriority = pr, getCallbackId = newId\<rparr>"
  from assms(2) show n: "newId = PrioritySignal.callbackId s + 1"
    by (auto simp: PrioritySignal_add_def pre_increment_def split: if_splits)
  from assms(2) show ci: "PrioritySignal.callbackId s' = newId"
    by (auto simp: PrioritySignal_add_def pre_increment_def split: if_splits)
  from assms(2) have cl: "callbackList s' = list_sort PriorityCompare (callbackList s @ [?e])"
    by (auto simp: PrioritySignal_add_def pre_increment_def split: if_splits)
  then show st: "set (callbackList s') = insert ?e (set (callbackList s))"
    by (simp add: set_list_sort)
  from assms(1) have bnd: "\<forall>e\<in>set (callbackList s). getCallbackId e \<le> PrioritySignal.callbackId s"
    and dst: "distinct (map getCallbackId (callbackList s))"
    and tie: "\<And>p. sorted_wrt (<) (map getCallbackId (filter (\<lambda>e. getPriority e = p) (callbackList s)))"
    by (simp_all add: PrioritySignal_inv_def)
  from bnd n have lt: "\<forall>e\<in>set (callbackList s). getCallbackId e < newId" by auto
  have 1: "sorted_wrt (\<lambda>a b. getPriority a \<ge> getPriority b) (callbackList s')"
    unfolding cl by (rule sorted_list_sort)
  have 2: "sorted_wrt (<) (map getCallbackId (filter (\<lambda>e. getPriority e = p) (callbackList s')))" for p
    using tie [of p] lt unfolding cl filter_list_sort by (auto simp: sorted_wrt_append)
  from dst lt have 3: "distinct (map getCallbackId (callbackList s'))"
    unfolding cl distinct_map_list_sort by auto
  from bnd n have 4: "\<forall>e\<in>set (callbackList s'). getCallbackId e \<le> PrioritySignal.callbackId s'"
    unfolding st ci by auto
  from 1 2 3 4 show "PrioritySignal_inv s'"
    by (simp add: PrioritySignal_inv_def)
qed

lemma map_getCallbackId_filter:
  "map getCallbackId (filter (\<lambda>e. getCallbackId e \<noteq> cbId) l) =
   filter (\<lambda>i. i \<noteq> cbId) (map getCallbackId l)"
  by (induction l) auto

lemma filter_priority_filter_id:
  "filter (\<lambda>e. getPriority e = p) (filter (\<lambda>e. getCallbackId e \<noteq> cbId) l) =
   filter (\<lambda>e. getCallbackId e \<noteq> cbId) (filter (\<lambda>e. getPriority e = p) l)"
  by (induction l) auto

lemma PrioritySignal_remove_inv:
  assumes "PrioritySignal_inv s"
  shows "PrioritySignal_inv (PrioritySignal_remove s cbId)"
proof -
  let ?l = "callbackList s"
  let ?l' = "filter (\<lambda>e. getCallbackId e \<noteq> cbId) ?l"
  from assms have srt: "sorted_wrt (\<lambda>a b. getPriority a \<ge> getPriority b) ?l"
    and tie: "\<And>p. sorted_wrt (<) (map getCallbackId (filter (\<lambda>e. getPriority e = p) ?l))"
    and dst: "distinct (map getCallbackId ?l)"
    and bnd: "\<forall>e\<in>set ?l. getCallbackId e \<le> PrioritySignal.callbackId s"
    by (simp_all add: PrioritySignal_inv_def)
  from srt have 1: "sorted_wrt (\<lambda>a b. getPriority a \<ge> getPriority b) ?l'"
    by (rule sorted_wrt_filter)
  have 2: "sorted_wrt (<) (map getCallbackId (filter (\<lambda>e. getPriority e = p) ?l'))" for p
    unfolding filter_priority_filter_id map_getCallbackId_filter
    using tie [of p] by (rule sorted_wrt_filter)
  from dst have 3: "distinct (map getCallbackId ?l')"
    unfolding map_getCallbackId_filter by (rule distinct_filter)
  from bnd have 4: "\<forall>e\<in>set ?l'. getCallbackId e \<le> PrioritySignal.callbackId s"
    by simp
  from 1 2 3 4 show ?thesis
    by (simp add: PrioritySignal_inv_def PrioritySignal_remove_def remove_loop_filter)
qed

lemma PrioritySignal_removeAll_inv: "PrioritySignal_inv (PrioritySignal_removeAll s)"
  by (simp add: PrioritySignal_inv_def PrioritySignal_removeAll_def)

lemma PrioritySignal_call_inv:
  assumes "PrioritySignal_inv s" and "PrioritySignal_call s c = Inr (ids, s')"
  shows "PrioritySignal_inv s' \<and> PrioritySignal.callbackId s \<le> PrioritySignal.callbackId s' \<and>
         ids = [PrioritySignal.callbackId s + 1..PrioritySignal.callbackId s'] \<and>
         getCallbackId ` set (callbackList s') \<subseteq> getCallbackId ` set (callbackList s) \<union> set ids"
proof (cases c)
  case (PAdd cb pr)
  with assms(2) obtain newId where a: "PrioritySignal_add s cb pr = Inr (newId, s')"
    and i: "ids = [newId]"
    by (auto split: sum.splits)
  from PrioritySignal_add_inv [OF assms(1) a] i show ?thesis by auto
next
  case (PRemove cbId)
  with assms have s': "s' = PrioritySignal_remove s cbId" and i: "ids = []" by simp_all
  with assms(1) show ?thesis
    by (simp add: PrioritySignal_remove_inv) (auto simp: PrioritySignal_remove_def remove_loop_filter)
next
  case PRemoveAll
  with assms show ?thesis
    by (auto simp: PrioritySignal_removeAll_inv) (auto simp: PrioritySignal_removeAll_def)
next
  case (PDispatch x w)
  with assms show ?thesis by (auto simp: PrioritySignal_dispatch_after)
qed

lemma PrioritySignal_run_inv:
  "PrioritySignal_inv s \<Longrightarrow> PrioritySignal_run s cs = Inr (ids, s') \<Longrightarrow>
   PrioritySignal_inv s' \<and> PrioritySignal.callbackId s \<le> PrioritySignal.callbackId s' \<and>
   ids = [PrioritySignal.callbackId s + 1..PrioritySignal.callbackId s'] \<and>
   getCallbackId ` set (callbackList s') \<subseteq> getCallbackId ` set (callbackList s) \<union> set ids"
proof (induction cs arbitrary: s ids)
  case Nil
  then show ?case by simp
next
  case (Cons c cs)
  from Cons.prems(2) obtain ids1 s1 ids2 where
    c: "PrioritySignal_call s c = Inr (ids1, s1)" and r: "PrioritySignal_run s1 cs = Inr (ids2, s')"
    and ids: "ids = ids1 @ ids2"
    by (auto split: sum.splits)
  note h1 = PrioritySignal_call_inv [OF Cons.prems(1) c]
  then have inv1: "PrioritySignal_inv s1" by simp
  note h2 = Cons.IH [OF inv1 r]
  from h1 h2 have i: "ids = [PrioritySignal.callbackId s + 1..PrioritySignal.callbackId s']"
    by (simp add: ids upto_append_upto)
  from h1 h2 have le: "PrioritySignal.callbackId s \<le> PrioritySignal.callbackId s'" by simp
  from h1 h2 have "getCallbackId ` set (callbackList s') \<subseteq>
      getCallbackId ` set (callbackList s) \<union> (set ids1 \<union> set ids2)"
    by blast
  then have sub: "getCallbackId ` set (callbackList s') \<subseteq> getCallbackId ` set (callbackList s) \<union> set ids"
    by (simp add: ids)
  from h2 i le sub show ?case by simp
qed

subsection \<open>Consequences for client programs\<close>

lemma Signal_run_init:
  assumes "Signal_run Signal_init cs = Inr (ids, s)"
  shows "Signal_inv s" and "ids = [1..Signal.callbackId s]"
    and "fst ` set (callbackMap s) \<subseteq> set ids"
  using Signal_run_inv [OF Signal_inv_init assms] by (auto simp: Signal_init_def)

lemma PrioritySignal_run_init:
  assumes "PrioritySignal_run (PrioritySignal_init c0) cs = Inr (ids, s)"
  shows "PrioritySignal_inv s" and "ids = [c0 + 1..PrioritySignal.callbackId s]"
    and "getCallbackId ` set (callbackList s) \<subseteq> set ids"
  using PrioritySignal_run_inv [OF PrioritySignal_inv_init assms]
  by (auto simp: PrioritySignal_init_def)

lemma Signal_calls_subset:
  "fst ` set (calls (Signal_dispatch s x w)) \<subseteq> fst ` set (callbackMap s)"
proof -
  have "set (fst (Signal_dispatch_loop (callbackMap s) x w)) \<subseteq>
        set (map (\<lambda>cb. (fst cb, x)) (callbackMap s))"
    by (rule set_mono_prefix [OF Signal_dispatch_loop_prefix])
  then have "fst ` set (fst (Signal_dispatch_loop (callbackMap s) x w)) \<subseteq>
        fst ` set (map (\<lambda>cb. (fst cb, x)) (callbackMap s))"
    by (rule image_mono)
  then show ?thesis
    by (simp add: Signal_dispatch_def split_beta image_image)
qed

lemma PrioritySignal_calls_subset:
  "fst ` set (calls (PrioritySignal_dispatch s x w)) \<subseteq> getCallbackId ` set (callbackList s)"
proof -
  have "set (fst (PrioritySignal_dispatch_loop (callbackList s) x w)) \<subseteq>
        set (map (\<lambda>cb. (fst cb, x)) (map (\<lambda>p. (getCallbackId p, getCallback p)) (callbackList s)))"
    unfolding PrioritySignal_dispatch_loop_eq
    by (rule set_mono_prefix [OF Signal_dispatch_loop_prefix])
  then have "fst ` set (fst (PrioritySignal_dispatch_loop (callbackList s) x w)) \<subseteq>
        fst ` set (map (\<lambda>cb. (fst cb, x)) (map (\<lambda>p. (getCallbackId p, getCallback p)) (callbackList s)))"
    by (rule image_mono)
  then show ?thesis
    by (simp add: PrioritySignal_dispatch_def split_beta image_image)
qed

lemma Signal_removed_stays_out:
  assumes run: "Signal_run Signal_init cs = Inr (ids, s)"
    and run': "Signal_run (Signal_remove s i) cs' = Inr (ids', s')"
    and reg: "i \<in> fst ` set (callbackMap s)"
  shows "i \<notin> fst ` set (callbackMap s')"
proof -
  from Signal_run_init(1) [OF run] have inv: "Signal_inv s" .
  with reg have le: "i \<le> Signal.callbackId s" by (auto simp: Signal_inv_def)
  from inv have "map fst (callbackMap (Signal_remove s i)) = filter (\<lambda>j. j \<noteq> i) (map fst (callbackMap s))"
    by (simp add: Signal_remove_def Signal_inv_def map_erase_keys)
  then have "set (map fst (callbackMap (Signal_remove s i))) = set (filter (\<lambda>j. j \<noteq> i) (map fst (callbackMap s)))"
    by simp
  then have out: "i \<notin> fst ` set (callbackMap (Signal_remove s i))" by auto
  from Signal_run_inv [OF Signal_remove_inv [OF inv] run']
  have ids': "ids' = [Signal.callbackId (Signal_remove s i) + 1..Signal.callbackId s']"
    and sub: "fst ` set (callbackMap s') \<subseteq> fst ` set (callbackMap (Signal_remove s i)) \<union> set ids'"
    by blast+
  from ids' le have "i \<notin> set ids'" by (simp add: Signal_remove_def)
  with out sub show ?thesis by blast
qed

lemma PrioritySignal_removed_stays_out:
  assumes run: "PrioritySignal_run (PrioritySignal_init c0) cs = Inr (ids, s)"
    and run': "PrioritySignal_run (PrioritySignal_remove s i) cs' = Inr (ids', s')"
    and reg: "i \<in> getCallbackId ` set (callbackList s)"
  shows "i \<notin> getCallbackId ` set (callbackList s')"
proof -
  from PrioritySignal_run_init(1) [OF run] have inv: "PrioritySignal_inv s" .
  with reg have le: "i \<le> PrioritySignal.callbackId s" by (auto simp: PrioritySignal_inv_def)
  have out: "i \<notin> getCallbackId ` set (callbackList (PrioritySignal_remove s i))"
    by (auto simp: PrioritySignal_remove_def remove_loop_filter)
  from PrioritySignal_run_inv [OF PrioritySignal_remove_inv [OF inv] run']
  have ids': "ids' = [PrioritySignal.callbackId (PrioritySignal_remove s i) + 1..PrioritySignal.callbackId s']"
    and sub: "getCallbackId ` set (callbackList s') \<subseteq>
              getCallbackId ` set (callbackList (PrioritySignal_remove s i)) \<union> set ids'"
    by blast+
  from ids' le have "i \<notin> set ids'" by (simp add: PrioritySignal_remove_def)
  with out sub show ?thesis by blast
qed

lemma PrioritySignal_remove_absent:
  "i \<notin> getCallbackId ` set (callbackList p) \<Longrightarrow> PrioritySignal_remove p i = p"
proof -
  assume "i \<notin> getCallbackId ` set (callbackList p)"
  then have "\<forall>e\<in>set (callbackList p). getCallbackId e \<noteq> i" by auto
  then have "filter (\<lambda>e. getCallbackId e \<noteq> i) (callbackList p) = callbackList p"
    by (simp add: filter_id_conv)
  then show ?thesis by (simp add: PrioritySignal_remove_def remove_loop_filter)
qed

lemma Signal_run_dispatches:
  "Signal_run s (map (\<lambda>d. Dispatch (fst d) (snd d)) ds) = Inr ([], s)"
  by (induction ds) (simp_all add: Signal_dispatch_after)

lemma PrioritySignal_run_dispatches:
  "PrioritySignal_run p (map (\<lambda>d. PDispatch (fst d) (snd d)) ds) = Inr ([], p)"
  by (induction ds) (simp_all add: PrioritySignal_dispatch_after)

lemma Signal_dispatch_calls: "calls (Signal_dispatch s x w) = fst (Signal_dispatch_loop (callbackMap s) x w)"
  by (simp add: Signal_dispatch_def split_beta)

lemma Signal_dispatch_outcome: "outcome (Signal_dispatch s x w) = snd (Signal_dispatch_loop (callbackMap s) x w)"
  by (simp add: Signal_dispatch_def split_beta)

lemma PrioritySignal_dispatch_calls:
  "calls (PrioritySignal_dispatch s x w) = fst (PrioritySignal_dispatch_loop (callbackList s) x w)"
  by (simp add: PrioritySignal_dispatch_def split_beta)

lemma PrioritySignal_dispatch_outcome:
  "outcome (PrioritySignal_dispatch s x w) = snd (PrioritySignal_dispatch_loop (callbackList s) x w)"
  by (simp add: PrioritySignal_dispatch_def split_beta)


lemma Signal_call_defined:
  "Signal.callbackId s < INT_MAX \<Longrightarrow>
   \<exists>ids s'. Signal_call s c = Inr (ids, s') \<and> Signal.callbackId s' \<le> Signal.callbackId s + 1"
  by (cases c)
    (simp_all add: Signal_add_def pre_increment_def Signal_remove_def Signal_removeAll_def
      Signal_dispatch_after)

lemma Signal_run_defined:
  "Signal.callbackId s + int (length cs) \<le> INT_MAX \<Longrightarrow> \<exists>r. Signal_run s cs = Inr r"
proof (induction cs arbitrary: s)
  case Nil
  then show ?case by simp
next
  case (Cons c cs)
  then have "Signal.callbackId s < INT_MAX" by simp
  from Signal_call_defined [OF this, of c] obtain ids s' where
    c: "Signal_call s c = Inr (ids, s')" and le: "Signal.callbackId s' \<le> Signal.callbackId s + 1"
    by blast
  from le Cons.prems have "Signal.callbackId s' + int (length cs) \<le> INT_MAX" by simp
  from Cons.IH [OF this] obtain r where "Signal_run s' cs = Inr r" by blast
  with c show ?case by (cases r) simp
qed

lemma PrioritySignal_call_defined:
  "PrioritySignal.callbackId s < INT_MAX \<Longrightarrow>
   \<exists>ids s'. PrioritySignal_call s c = Inr (ids, s') \<and>
            PrioritySignal.callbackId s' \<le> PrioritySignal.callbackId s + 1"
  by (cases c)
    (simp_all add: PrioritySignal_add_def pre_increment_def PrioritySignal_remove_def
      PrioritySignal_removeAll_def PrioritySignal_dispatch_after)

lemma PrioritySignal_run_defined:
  "PrioritySignal.callbackId s + int (length cs) \<le> INT_MAX \<Longrightarrow> \<exists>r. PrioritySignal_run s cs = Inr r"
proof (induction cs arbitrary: s)
  case Nil
  then show ?case by simp
next
  case (Cons c cs)
  then have "PrioritySignal.callbackId s < INT_MAX" by simp
  from PrioritySignal_call_defined [OF this, of c] obtain ids s' where
    c: "PrioritySignal_call s c = Inr (ids, s')"
    and le: "PrioritySignal.callbackId s' \<le> PrioritySignal.callbackId s + 1"
    by blast
  from le Cons.prems have "PrioritySignal.callbackId s' + int (length cs) \<le> INT_MAX" by simp
  from Cons.IH [OF this] obtain r where "PrioritySignal_run s' cs = Inr r" by blast
  with c show ?case by (cases r) simp
qed

lemma PrioritySignal_calls_prefix:
  "prefix (calls (PrioritySignal_dispatch s x w)) (map (\<lambda>e. (getCallbackId e, x)) (callbackList s))"
  using Signal_dispatch_loop_prefix [of "map (\<lambda>p. (getCallbackId p, getCallback p)) (callbackList s)" x w]
  by (simp add: PrioritySignal_dispatch_calls PrioritySignal_dispatch_loop_eq comp_def)

lemma PrioritySignal_calls_returns:
  "outcome (PrioritySignal_dispatch s x w) = Inr w' \<Longrightarrow>
   calls (PrioritySignal_dispatch s x w) = map (\<lambda>e. (getCallbackId e, x)) (callbackList s)"
  using Signal_dispatch_loop_returns [of "map (\<lambda>p. (getCallbackId p, getCallback p)) (callbackList s)" x w w']
  by (simp add: PrioritySignal_dispatch_calls PrioritySignal_dispatch_outcome
      PrioritySignal_dispatch_loop_eq comp_def)

text \<open>
  The identifiers a client receives. From the state the constructor of \<^verbatim>\<open>Signal\<close> leaves,
  they are \<open>1, 2, 3, \<dots>\<close> up to the counter, whatever else the client calls in between.
  From a \<^verbatim>\<open>PrioritySignal\<close> whose counter started at \<open>c0\<close> they are
  \<open>c0 + 1, c0 + 2, \<dots>\<close>.
\<close>

lemma Signal_identifiers:
  assumes "Signal_run Signal_init cs = Inr (ids, s)"
  shows "ids = [1..Signal.callbackId s]" and "sorted_wrt (<) ids" and "distinct ids"
    and "0 \<notin> set ids" and "ids \<noteq> [] \<Longrightarrow> hd ids = 1"
proof -
  show i: "ids = [1..Signal.callbackId s]" by (rule Signal_run_init(2) [OF assms])
  then show "sorted_wrt (<) ids" "distinct ids" "0 \<notin> set ids" by simp_all
  assume "ids \<noteq> []"
  with i have "1 \<le> Signal.callbackId s" by simp
  then show "hd ids = 1" unfolding i by (simp add: upto_rec1)
qed

lemma PrioritySignal_identifiers:
  assumes "PrioritySignal_run (PrioritySignal_init c0) cs = Inr (ids, s)"
  shows "ids = [c0 + 1..PrioritySignal.callbackId s]" and "sorted_wrt (<) ids" and "distinct ids"
    and "ids \<noteq> [] \<Longrightarrow> hd ids = c0 + 1"
proof -
  show i: "ids = [c0 + 1..PrioritySignal.callbackId s]" by (rule PrioritySignal_run_init(2) [OF assms])
  then show "sorted_wrt (<) ids" "distinct ids" by simp_all
  assume "ids \<noteq> []"
  with i have "c0 + 1 \<le> PrioritySignal.callbackId s" by simp
  then show "hd ids = c0 + 1" unfolding i by (simp add: upto_rec1)
qed

section \<open>Properties\<close>

subsection \<open>Identifiers\<close>

text \<open>
  C1. The identifiers returned by \<^verbatim>\<open>add\<close> on one \<^verbatim>\<open>Signal\<close> or one \<^verbatim>\<open>PrioritySignal\<close>
  are strictly increasing, never zero and never repeated, and the first one is 1.

  For \<^verbatim>\<open>Signal\<close> this is \<open>Signal_identifiers\<close>. \<^verbatim>\<open>PrioritySignal\<close> lacks the
  constructor that \<^verbatim>\<open>Signal\<close> has, so the first identifier is one more than whatever the
  counter holds when the object comes into being (\<open>PrioritySignal_identifiers\<close>). Here the
  code is run on an object whose counter holds \<open>- 1\<close>: the first \<^verbatim>\<open>add\<close> returns 0.
\<close>

theorem PrioritySignal_first_identifier:
  "PrioritySignal_run (PrioritySignal_init (- 1)) [PAdd (logging_listener 1) 0] =
     Inr ([0], \<lparr>PrioritySignal.callbackId = 0,
                callbackList = [\<lparr>getCallback = logging_listener 1, getPriority = 0,
                                 getCallbackId = 0\<rparr>]\<rparr>)"
  by (simp add: PrioritySignal_init_def PrioritySignal_add_def pre_increment_def INT_MAX_def)

subsection \<open>The order of a \<^verbatim>\<open>PrioritySignal\<close>\<close>

text \<open>
  C2. In every state that calls of \<^verbatim>\<open>add\<close>, \<^verbatim>\<open>remove\<close> and \<^verbatim>\<open>removeAll\<close> (and
  \<^verbatim>\<open>dispatch\<close>) lead to, the list of a \<^verbatim>\<open>PrioritySignal\<close> descends in priority, and the
  entries of any one priority stand in the order in which they were added: their
  identifiers, read along the list, are a subsequence of the identifiers in the order
  \<^verbatim>\<open>add\<close> returned them.
\<close>

theorem PrioritySignal_sorted_stable:
  "PrioritySignal_run (PrioritySignal_init c0) cs = Inr (ids, s) \<Longrightarrow>
   sorted_wrt (\<lambda>a b. getPriority a \<ge> getPriority b) (callbackList s) \<and>
   (\<forall>pr. map getCallbackId (filter (\<lambda>e. getPriority e = pr) (callbackList s)) =
         filter (\<lambda>i. i \<in> getCallbackId ` set (filter (\<lambda>e. getPriority e = pr) (callbackList s))) ids)"
proof -
  assume run: "PrioritySignal_run (PrioritySignal_init c0) cs = Inr (ids, s)"
  note init = PrioritySignal_run_init [OF run]
  from init(1) have srt: "sorted_wrt (\<lambda>a b. getPriority a \<ge> getPriority b) (callbackList s)"
    and tie: "\<And>pr. sorted_wrt (<) (map getCallbackId (filter (\<lambda>e. getPriority e = pr) (callbackList s)))"
    by (simp_all add: PrioritySignal_inv_def)
  from init(2) have si: "sorted_wrt (<) ids" by simp
  have "map getCallbackId (filter (\<lambda>e. getPriority e = pr) (callbackList s)) =
        filter (\<lambda>i. i \<in> getCallbackId ` set (filter (\<lambda>e. getPriority e = pr) (callbackList s))) ids" for pr
  proof -
    from init(3) have "set (map getCallbackId (filter (\<lambda>e. getPriority e = pr) (callbackList s))) \<subseteq> set ids"
      by auto
    from filter_mem_sorted [OF tie [of pr] si this] show ?thesis by simp
  qed
  with srt show ?thesis by simp
qed

theorem PrioritySignal_sorted_stable_witness:
  "PrioritySignal_run (PrioritySignal_init 0)
     [PAdd (logging_listener 1) 1, PAdd (logging_listener 2) 7, PAdd (logging_listener 3) 1,
      PRemove 2, PAdd (logging_listener 4) 1, PAdd (logging_listener 5) 3] =
     Inr ([1, 2, 3, 4, 5],
          \<lparr>PrioritySignal.callbackId = 5,
           callbackList =
             [\<lparr>getCallback = logging_listener 5, getPriority = 3, getCallbackId = 5\<rparr>,
              \<lparr>getCallback = logging_listener 1, getPriority = 1, getCallbackId = 1\<rparr>,
              \<lparr>getCallback = logging_listener 3, getPriority = 1, getCallbackId = 3\<rparr>,
              \<lparr>getCallback = logging_listener 4, getPriority = 1, getCallbackId = 4\<rparr>]\<rparr>) \<and>
   sorted_wrt (\<lambda>a b. getPriority a \<ge> getPriority b)
     [\<lparr>getCallback = logging_listener 5, getPriority = 3, getCallbackId = 5\<rparr>,
      \<lparr>getCallback = logging_listener 1, getPriority = 1, getCallbackId = 1\<rparr>,
      \<lparr>getCallback = logging_listener 3, getPriority = 1, getCallbackId = 3\<rparr>,
      \<lparr>getCallback = logging_listener 4, getPriority = 1, getCallbackId = 4\<rparr>] \<and>
   filter (\<lambda>i. i \<in> {1, 3, 4}) [1, 2, 3, 4, 5] = [1, 3, 4 :: callback_id]"
proof -
  let ?s = "\<lparr>PrioritySignal.callbackId = 5,
           callbackList =
             [\<lparr>getCallback = logging_listener 5, getPriority = 3, getCallbackId = 5\<rparr>,
              \<lparr>getCallback = logging_listener 1, getPriority = 1, getCallbackId = 1\<rparr>,
              \<lparr>getCallback = logging_listener 3, getPriority = 1, getCallbackId = 3\<rparr>,
              \<lparr>getCallback = logging_listener 4, getPriority = 1, getCallbackId = 4\<rparr>]\<rparr>"
  have h: "PrioritySignal_run (PrioritySignal_init 0)
     [PAdd (logging_listener 1) 1, PAdd (logging_listener 2) 7, PAdd (logging_listener 3) 1,
      PRemove 2, PAdd (logging_listener 4) 1, PAdd (logging_listener 5) 3] =
     Inr ([1, 2, 3, 4, 5], ?s)"
    by (simp add: PrioritySignal_init_def PrioritySignal_add_def PrioritySignal_remove_def
        PriorityCompare_def pre_increment_def INT_MAX_def)
  note t = PrioritySignal_sorted_stable [OF h]
  from t have c1: "sorted_wrt (\<lambda>a b. getPriority a \<ge> getPriority b) (callbackList ?s)"
    by (rule conjunct1)
  from t have "map getCallbackId (filter (\<lambda>e. getPriority e = 1) (callbackList ?s)) =
      filter (\<lambda>i. i \<in> getCallbackId ` set (filter (\<lambda>e. getPriority e = 1) (callbackList ?s)))
        [1, 2, 3, 4, 5]"
    by blast
  then have c2: "filter (\<lambda>i. i \<in> {1, 3, 4}) [1, 2, 3, 4, 5] = [1, 3, (4::int)]"
    by simp
  from c1 have c1': "sorted_wrt (\<lambda>a b. getPriority a \<ge> getPriority b)
     [\<lparr>getCallback = logging_listener 5, getPriority = 3, getCallbackId = 5\<rparr>,
      \<lparr>getCallback = logging_listener 1, getPriority = 1, getCallbackId = 1\<rparr>,
      \<lparr>getCallback = logging_listener 3, getPriority = 1, getCallbackId = 3\<rparr>,
      \<lparr>getCallback = logging_listener 4, getPriority = 1, getCallbackId = 4\<rparr>]"
    by simp
  from h c1' c2 show ?thesis by (intro conjI)
qed

subsection \<open>What \<^verbatim>\<open>dispatch\<close> calls\<close>

text \<open>
  C3. As stated: in every state of a \<^verbatim>\<open>Signal\<close> and for every argument, \<^verbatim>\<open>dispatch\<close>
  calls each registered listener exactly once with that argument, and nothing else. This
  holds under two conditions. The listeners do not call \<^verbatim>\<open>add\<close>, \<^verbatim>\<open>remove\<close> or
  \<^verbatim>\<open>removeAll\<close> on the signal that is dispatching: the loop walks the map itself, not a
  copy, so an entry erased by an earlier listener is not reached and an entry inserted by
  one is; the listeners of this theory act on the rest of the program only. And no
  listener throws: the loop does not catch. When every listener, applied to the state its
  predecessor left, returns (\<open>ws\<close> below is that sequence of states), the dispatch returns
  with the last of these states and the calls made are the entries of the map, one call
  each, every one with the argument given. Conversely, a dispatch that returns has made
  exactly these calls, and there is such a sequence of states.
\<close>

theorem dispatch_all:
  "(Signal_run Signal_init cs = Inr (ids, s) \<and>
    length ws = Suc (length (callbackMap s)) \<and> ws ! 0 = w \<and>
    (\<forall>n<length (callbackMap s). snd (callbackMap s ! n) x (ws ! n) = Inr (ws ! Suc n)) \<longrightarrow>
      outcome (Signal_dispatch s x w) = Inr (ws ! length (callbackMap s)) \<and>
      calls (Signal_dispatch s x w) = map (\<lambda>cb. (fst cb, x)) (callbackMap s) \<and>
      distinct (map fst (callbackMap s))) \<and>
   (Signal_run Signal_init cs = Inr (ids, s) \<and> outcome (Signal_dispatch s x w) = Inr w' \<longrightarrow>
      calls (Signal_dispatch s x w) = map (\<lambda>cb. (fst cb, x)) (callbackMap s) \<and>
      distinct (map fst (callbackMap s)) \<and>
      (\<exists>vs. length vs = Suc (length (callbackMap s)) \<and> vs ! 0 = w \<and>
            vs ! length (callbackMap s) = w' \<and>
            (\<forall>n<length (callbackMap s). snd (callbackMap s ! n) x (vs ! n) = Inr (vs ! Suc n))))"
proof (rule conjI; intro impI)
  assume a: "Signal_run Signal_init cs = Inr (ids, s) \<and>
    length ws = Suc (length (callbackMap s)) \<and> ws ! 0 = w \<and>
    (\<forall>n<length (callbackMap s). snd (callbackMap s ! n) x (ws ! n) = Inr (ws ! Suc n))"
  then have run: "Signal_run Signal_init cs = Inr (ids, s)"
    and len: "length ws = Suc (length (callbackMap s))" and w: "ws ! 0 = w"
    and all: "\<forall>n<length (callbackMap s). snd (callbackMap s ! n) x (ws ! n) = Inr (ws ! Suc n)"
    by simp_all
  from Signal_dispatch_loop_all_return [OF len all]
  have l: "Signal_dispatch_loop (callbackMap s) x w =
      (map (\<lambda>cb. (fst cb, x)) (callbackMap s), Inr (ws ! length (callbackMap s)))"
    by (simp add: w)
  from Signal_run_init(1) [OF run] have "sorted_wrt (<) (map fst (callbackMap s))"
    by (simp add: Signal_inv_def)
  then have "distinct (map fst (callbackMap s))"
    by (simp add: strict_sorted_iff)
  with l show "outcome (Signal_dispatch s x w) = Inr (ws ! length (callbackMap s)) \<and>
      calls (Signal_dispatch s x w) = map (\<lambda>cb. (fst cb, x)) (callbackMap s) \<and>
      distinct (map fst (callbackMap s))"
    by (simp add: Signal_dispatch_outcome Signal_dispatch_calls)
next
  assume a: "Signal_run Signal_init cs = Inr (ids, s) \<and> outcome (Signal_dispatch s x w) = Inr w'"
  then have run: "Signal_run Signal_init cs = Inr (ids, s)"
    and ret: "outcome (Signal_dispatch s x w) = Inr w'"
    by simp_all
  from ret have r: "snd (Signal_dispatch_loop (callbackMap s) x w) = Inr w'"
    by (simp add: Signal_dispatch_outcome)
  from Signal_run_init(1) [OF run] have "sorted_wrt (<) (map fst (callbackMap s))"
    by (simp add: Signal_inv_def)
  then have "distinct (map fst (callbackMap s))"
    by (simp add: strict_sorted_iff)
  with Signal_dispatch_loop_returns [OF r] Signal_dispatch_loop_worlds [OF r]
  show "calls (Signal_dispatch s x w) = map (\<lambda>cb. (fst cb, x)) (callbackMap s) \<and>
      distinct (map fst (callbackMap s)) \<and>
      (\<exists>vs. length vs = Suc (length (callbackMap s)) \<and> vs ! 0 = w \<and>
            vs ! length (callbackMap s) = w' \<and>
            (\<forall>n<length (callbackMap s). snd (callbackMap s ! n) x (vs ! n) = Inr (vs ! Suc n)))"
    by (simp add: Signal_dispatch_calls)
qed

theorem dispatch_all_witness:
  "Signal_run Signal_init
     [Add (logging_listener 1), Add (logging_listener 2), Remove 1, Add (logging_listener 3)] =
     Inr ([1, 2, 3],
          \<lparr>Signal.callbackId = 3,
           callbackMap = [(2, logging_listener 2), (3, logging_listener 3)]\<rparr>) \<and>
   logging_listener 2 7 [] = Inr [(2, 7)] \<and>
   logging_listener 3 7 [(2, 7)] = Inr [(2, 7), (3, 7)] \<and>
   outcome (Signal_dispatch
          \<lparr>Signal.callbackId = 3,
           callbackMap = [(2, logging_listener 2), (3, logging_listener 3)]\<rparr> 7 []) =
     Inr [(2, 7), (3, 7)] \<and>
   calls (Signal_dispatch
          \<lparr>Signal.callbackId = 3,
           callbackMap = [(2, logging_listener 2), (3, logging_listener 3)]\<rparr> 7 []) =
     [(2, 7), (3, 7)]"
proof -
  let ?s = "\<lparr>Signal.callbackId = 3,
             callbackMap = [(2, logging_listener 2), (3, logging_listener 3)]\<rparr>"
  let ?ws = "[[], [(2, 7)], [(2, 7), (3, 7)]] :: (nat \<times> int) list list"
  have h1: "Signal_run Signal_init
      [Add (logging_listener 1), Add (logging_listener 2), Remove 1, Add (logging_listener 3)] =
      Inr ([1, 2, 3], ?s)"
    by (simp add: Signal_init_def Signal_add_def Signal_remove_def pre_increment_def INT_MAX_def)
  have l2: "logging_listener 2 7 [] = Inr [(2, 7)]"
    and l3: "logging_listener 3 7 [(2, 7)] = Inr [(2, 7), (3, 7)]"
    by (simp_all add: logging_listener_def)
  have h2: "length ?ws = Suc (length (callbackMap ?s))" by simp
  have h3: "?ws ! 0 = []" by simp
  have h4: "\<forall>n<length (callbackMap ?s). snd (callbackMap ?s ! n) 7 (?ws ! n) = Inr (?ws ! Suc n)"
    using l2 l3 by (simp add: less_Suc_eq)
  note t = dispatch_all [where cs = "[Add (logging_listener 1), Add (logging_listener 2), Remove 1,
        Add (logging_listener 3)]" and ids = "[1, 2, 3]" and s = ?s and ws = ?ws and w = "[]"
      and x = 7 and w' = "[(2, 7), (3, 7)]"]
  from t h1 h2 h3 h4 have o: "outcome (Signal_dispatch ?s 7 []) = Inr [(2, 7), (3, 7)]"
    by simp
  from t h1 o have c: "calls (Signal_dispatch ?s 7 []) = [(2, 7), (3, 7)]"
    by simp
  from h1 l2 l3 o c show ?thesis by (intro conjI)
qed

text \<open>
  Without the second condition the statement fails: with a throwing listener registered
  first and another one second, the second is registered and is not called.
\<close>

theorem dispatch_all_counterexample:
  "Signal_run Signal_init [Add throwing_listener, Add (logging_listener 2)] =
     Inr ([1, 2], \<lparr>Signal.callbackId = 2,
                   callbackMap = [(1, throwing_listener), (2, logging_listener 2)]\<rparr>) \<and>
   2 \<in> fst ` set (callbackMap
            \<lparr>Signal.callbackId = 2,
             callbackMap = [(1, throwing_listener), (2, logging_listener 2)]\<rparr>) \<and>
   calls (Signal_dispatch
            \<lparr>Signal.callbackId = 2,
             callbackMap = [(1, throwing_listener), (2, logging_listener 2)]\<rparr> 7 []) = [(1, 7)] \<and>
   2 \<notin> fst ` set (calls (Signal_dispatch
            \<lparr>Signal.callbackId = 2,
             callbackMap = [(1, throwing_listener), (2, logging_listener 2)]\<rparr> 7 [])) \<and>
   outcome (Signal_dispatch
            \<lparr>Signal.callbackId = 2,
             callbackMap = [(1, throwing_listener), (2, logging_listener 2)]\<rparr> 7 []) = Inl ''thrown''"
  by (simp add: Signal_init_def Signal_add_def Signal_dispatch_def pre_increment_def INT_MAX_def
      logging_listener_def throwing_listener_def)

text \<open>
  C4. After \<^verbatim>\<open>add\<close> with priorities 5, 1, 10, 1 on a fresh \<^verbatim>\<open>PrioritySignal\<close>, the list
  holds the third listener, then the first, then the second, then the fourth, and
  \<^verbatim>\<open>dispatch\<close> calls them in that order: the calls it makes are an initial part of that
  sequence, and all of it when no listener throws. This holds whatever value \<open>c0\<close> the
  counter started with, as long as four increments do not overflow.
\<close>

theorem PrioritySignal_order_example:
  "c0 + 4 \<le> INT_MAX \<Longrightarrow>
   (\<exists>s. PrioritySignal_run (PrioritySignal_init c0)
           [PAdd cb1 5, PAdd cb2 1, PAdd cb3 10, PAdd cb4 1] =
         Inr ([c0 + 1, c0 + 2, c0 + 3, c0 + 4], s) \<and>
       map getCallbackId (callbackList s) = [c0 + 3, c0 + 1, c0 + 2, c0 + 4] \<and>
       map getPriority (callbackList s) = [10, 5, 1, 1] \<and>
       map getCallback (callbackList s) = [cb3, cb1, cb2, cb4] \<and>
       prefix (calls (PrioritySignal_dispatch s x w))
         [(c0 + 3, x), (c0 + 1, x), (c0 + 2, x), (c0 + 4, x)] \<and>
       (\<forall>w'. outcome (PrioritySignal_dispatch s x w) = Inr w' \<longrightarrow>
             calls (PrioritySignal_dispatch s x w) =
               [(c0 + 3, x), (c0 + 1, x), (c0 + 2, x), (c0 + 4, x)]))"
proof -
  assume c0: "c0 + 4 \<le> INT_MAX"
  let ?s = "\<lparr>PrioritySignal.callbackId = c0 + 4,
             callbackList =
               [\<lparr>getCallback = cb3, getPriority = 10, getCallbackId = c0 + 3\<rparr>,
                \<lparr>getCallback = cb1, getPriority = 5, getCallbackId = c0 + 1\<rparr>,
                \<lparr>getCallback = cb2, getPriority = 1, getCallbackId = c0 + 2\<rparr>,
                \<lparr>getCallback = cb4, getPriority = 1, getCallbackId = c0 + 4\<rparr>]\<rparr>"
  from c0 have run: "PrioritySignal_run (PrioritySignal_init c0)
           [PAdd cb1 5, PAdd cb2 1, PAdd cb3 10, PAdd cb4 1] =
         Inr ([c0 + 1, c0 + 2, c0 + 3, c0 + 4], ?s)"
    by (simp add: PrioritySignal_init_def PrioritySignal_add_def pre_increment_def
        PriorityCompare_def)
  from PrioritySignal_calls_prefix [of ?s x w]
  have pre: "prefix (calls (PrioritySignal_dispatch ?s x w))
         [(c0 + 3, x), (c0 + 1, x), (c0 + 2, x), (c0 + 4, x)]"
    by simp
  have ret: "\<forall>w'. outcome (PrioritySignal_dispatch ?s x w) = Inr w' \<longrightarrow>
             calls (PrioritySignal_dispatch ?s x w) =
               [(c0 + 3, x), (c0 + 1, x), (c0 + 2, x), (c0 + 4, x)]"
    using PrioritySignal_calls_returns [of ?s x w] by simp
  from run pre ret show ?thesis
    by (intro exI [of _ ?s]) simp
qed

theorem PrioritySignal_order_example_witness:
  "(0::int) + 4 \<le> INT_MAX \<and>
   (\<exists>s. PrioritySignal_run (PrioritySignal_init 0)
           [PAdd (logging_listener 1) 5, PAdd (logging_listener 2) 1,
            PAdd (logging_listener 3) 10, PAdd (logging_listener 4) 1] =
         Inr ([1, 2, 3, 4], s) \<and>
       map getCallbackId (callbackList s) = [3, 1, 2, 4] \<and>
       map getCallback (callbackList s) =
         [logging_listener 3, logging_listener 1, logging_listener 2, logging_listener 4] \<and>
       outcome (PrioritySignal_dispatch s 7 []) = Inr [(3, 7), (1, 7), (2, 7), (4, 7)] \<and>
       calls (PrioritySignal_dispatch s 7 []) = [(3, 7), (1, 7), (2, 7), (4, 7)])"
proof -
  have h: "(0::int) + 4 \<le> INT_MAX" by (simp add: INT_MAX_def)
  from PrioritySignal_order_example [OF h, of "logging_listener 1" "logging_listener 2"
      "logging_listener 3" "logging_listener 4" 7 "[]"]
  obtain s where
    r: "PrioritySignal_run (PrioritySignal_init 0)
           [PAdd (logging_listener 1) 5, PAdd (logging_listener 2) 1,
            PAdd (logging_listener 3) 10, PAdd (logging_listener 4) 1] =
         Inr ([1, 2, 3, 4], s)"
    and i: "map getCallbackId (callbackList s) = [3, 1, 2, 4]"
    and p: "map getPriority (callbackList s) = [10, 5, 1, 1]"
    and c: "map getCallback (callbackList s) =
         [logging_listener 3, logging_listener 1, logging_listener 2, logging_listener 4]"
    and f: "\<forall>w'. outcome (PrioritySignal_dispatch s 7 []) = Inr w' \<longrightarrow>
             calls (PrioritySignal_dispatch s 7 []) = [(3, 7), (1, 7), (2, 7), (4, 7)]"
    by auto
  from i c have "map (\<lambda>p. (getCallbackId p, getCallback p)) (callbackList s) =
      [(3, logging_listener 3), (1, logging_listener 1), (2, logging_listener 2), (4, logging_listener 4)]"
    by (auto simp: map_eq_Cons_conv)
  then have o: "outcome (PrioritySignal_dispatch s 7 []) = Inr [(3, 7), (1, 7), (2, 7), (4, 7)]"
    by (simp add: PrioritySignal_dispatch_outcome PrioritySignal_dispatch_loop_eq logging_listener_def)
  with f have "calls (PrioritySignal_dispatch s 7 []) = [(3, 7), (1, 7), (2, 7), (4, 7)]"
    by blast
  with h r i c o show ?thesis by (intro conjI exI [of _ s])
qed

subsection \<open>\<^verbatim>\<open>remove\<close>\<close>

text \<open>
  C5. For both classes: once \<^verbatim>\<open>remove(id)\<close> has been called for a registered identifier,
  no dispatch calls the entry registered under it, neither at once nor after any further
  calls; and \<^verbatim>\<open>remove\<close> of an identifier that is not in the container leaves the object
  as it was.
\<close>

theorem remove_effect:
  "(Signal_run Signal_init cs = Inr (ids, s) \<and> i \<in> fst ` set (callbackMap s) \<and>
    Signal_run (Signal_remove s i) cs' = Inr (ids', s')
      \<longrightarrow> i \<notin> fst ` set (calls (Signal_dispatch s' x w))) \<and>
   (j \<notin> fst ` set (callbackMap t) \<longrightarrow> Signal_remove t j = t) \<and>
   (PrioritySignal_run (PrioritySignal_init c0) pcs = Inr (pids, p) \<and>
    k \<in> getCallbackId ` set (callbackList p) \<and>
    PrioritySignal_run (PrioritySignal_remove p k) pcs' = Inr (pids', p')
      \<longrightarrow> k \<notin> fst ` set (calls (PrioritySignal_dispatch p' y v))) \<and>
   (l \<notin> getCallbackId ` set (callbackList q) \<longrightarrow> PrioritySignal_remove q l = q)"
proof (intro conjI impI)
  assume "Signal_run Signal_init cs = Inr (ids, s) \<and> i \<in> fst ` set (callbackMap s) \<and>
    Signal_run (Signal_remove s i) cs' = Inr (ids', s')"
  then have "i \<notin> fst ` set (callbackMap s')"
    using Signal_removed_stays_out by blast
  with Signal_calls_subset [of s' x w] show "i \<notin> fst ` set (calls (Signal_dispatch s' x w))"
    by blast
next
  assume "j \<notin> fst ` set (callbackMap t)"
  then show "Signal_remove t j = t"
    by (simp add: Signal_remove_def map_erase_absent)
next
  assume "PrioritySignal_run (PrioritySignal_init c0) pcs = Inr (pids, p) \<and>
    k \<in> getCallbackId ` set (callbackList p) \<and>
    PrioritySignal_run (PrioritySignal_remove p k) pcs' = Inr (pids', p')"
  then have "k \<notin> getCallbackId ` set (callbackList p')"
    using PrioritySignal_removed_stays_out by blast
  with PrioritySignal_calls_subset [of p' y v]
  show "k \<notin> fst ` set (calls (PrioritySignal_dispatch p' y v))"
    by blast
next
  assume "l \<notin> getCallbackId ` set (callbackList q)"
  then show "PrioritySignal_remove q l = q"
    by (rule PrioritySignal_remove_absent)
qed

theorem remove_effect_witness:
  "Signal_run Signal_init [Add (logging_listener 1), Add (logging_listener 2)] =
     Inr ([1, 2], \<lparr>Signal.callbackId = 2,
                   callbackMap = [(1, logging_listener 1), (2, logging_listener 2)]\<rparr>) \<and>
   Signal_run
     (Signal_remove \<lparr>Signal.callbackId = 2,
                     callbackMap = [(1, logging_listener 1), (2, logging_listener 2)]\<rparr> 1)
     [Add (logging_listener 3), Dispatch 5 []] =
     Inr ([3], \<lparr>Signal.callbackId = 3,
                callbackMap = [(2, logging_listener 2), (3, logging_listener 3)]\<rparr>) \<and>
   1 \<notin> fst ` set (calls (Signal_dispatch
                 \<lparr>Signal.callbackId = 3,
                  callbackMap = [(2, logging_listener 2), (3, logging_listener 3)]\<rparr> 7 [])) \<and>
   Signal_remove \<lparr>Signal.callbackId = 2,
                  callbackMap = [(1, logging_listener 1), (2, logging_listener 2)]\<rparr> 5 =
     \<lparr>Signal.callbackId = 2, callbackMap = [(1, logging_listener 1), (2, logging_listener 2)]\<rparr> \<and>
   PrioritySignal_run (PrioritySignal_init 0)
     [PAdd (logging_listener 1) 0, PAdd (logging_listener 2) 100] =
     Inr ([1, 2],
          \<lparr>PrioritySignal.callbackId = 2,
           callbackList =
             [\<lparr>getCallback = logging_listener 2, getPriority = 100, getCallbackId = 2\<rparr>,
              \<lparr>getCallback = logging_listener 1, getPriority = 0, getCallbackId = 1\<rparr>]\<rparr>) \<and>
   PrioritySignal_run
     (PrioritySignal_remove
        \<lparr>PrioritySignal.callbackId = 2,
         callbackList =
           [\<lparr>getCallback = logging_listener 2, getPriority = 100, getCallbackId = 2\<rparr>,
            \<lparr>getCallback = logging_listener 1, getPriority = 0, getCallbackId = 1\<rparr>]\<rparr> 2)
     [PAdd (logging_listener 3) 50] =
     Inr ([3],
          \<lparr>PrioritySignal.callbackId = 3,
           callbackList =
             [\<lparr>getCallback = logging_listener 3, getPriority = 50, getCallbackId = 3\<rparr>,
              \<lparr>getCallback = logging_listener 1, getPriority = 0, getCallbackId = 1\<rparr>]\<rparr>) \<and>
   2 \<notin> fst ` set (calls (PrioritySignal_dispatch
          \<lparr>PrioritySignal.callbackId = 3,
           callbackList =
             [\<lparr>getCallback = logging_listener 3, getPriority = 50, getCallbackId = 3\<rparr>,
              \<lparr>getCallback = logging_listener 1, getPriority = 0, getCallbackId = 1\<rparr>]\<rparr> 7 [])) \<and>
   PrioritySignal_remove
        \<lparr>PrioritySignal.callbackId = 2,
         callbackList =
           [\<lparr>getCallback = logging_listener 2, getPriority = 100, getCallbackId = 2\<rparr>,
            \<lparr>getCallback = logging_listener 1, getPriority = 0, getCallbackId = 1\<rparr>]\<rparr> 9 =
        \<lparr>PrioritySignal.callbackId = 2,
         callbackList =
           [\<lparr>getCallback = logging_listener 2, getPriority = 100, getCallbackId = 2\<rparr>,
            \<lparr>getCallback = logging_listener 1, getPriority = 0, getCallbackId = 1\<rparr>]\<rparr>"
proof -
  let ?s = "\<lparr>Signal.callbackId = 2,
             callbackMap = [(1, logging_listener 1), (2, logging_listener 2)]\<rparr>"
  let ?s' = "\<lparr>Signal.callbackId = 3,
              callbackMap = [(2, logging_listener 2), (3, logging_listener 3)]\<rparr>"
  let ?p = "\<lparr>PrioritySignal.callbackId = 2,
             callbackList =
               [\<lparr>getCallback = logging_listener 2, getPriority = 100, getCallbackId = 2\<rparr>,
                \<lparr>getCallback = logging_listener 1, getPriority = 0, getCallbackId = 1\<rparr>]\<rparr>"
  let ?p' = "\<lparr>PrioritySignal.callbackId = 3,
              callbackList =
                [\<lparr>getCallback = logging_listener 3, getPriority = 50, getCallbackId = 3\<rparr>,
                 \<lparr>getCallback = logging_listener 1, getPriority = 0, getCallbackId = 1\<rparr>]\<rparr>"
  have h1: "Signal_run Signal_init [Add (logging_listener 1), Add (logging_listener 2)] = Inr ([1, 2], ?s)"
    by (simp add: Signal_init_def Signal_add_def pre_increment_def INT_MAX_def)
  have h2: "1 \<in> fst ` set (callbackMap ?s)" by simp
  have h3: "Signal_run (Signal_remove ?s 1) [Add (logging_listener 3), Dispatch 5 []] = Inr ([3], ?s')"
    by (simp add: Signal_add_def Signal_remove_def Signal_dispatch_after pre_increment_def INT_MAX_def)
  have h4: "5 \<notin> fst ` set (callbackMap ?s)" by simp
  have h5: "PrioritySignal_run (PrioritySignal_init 0)
      [PAdd (logging_listener 1) 0, PAdd (logging_listener 2) 100] = Inr ([1, 2], ?p)"
    by (simp add: PrioritySignal_init_def PrioritySignal_add_def PriorityCompare_def
        pre_increment_def INT_MAX_def)
  have h6: "2 \<in> getCallbackId ` set (callbackList ?p)" by simp
  have h7: "PrioritySignal_run (PrioritySignal_remove ?p 2) [PAdd (logging_listener 3) 50] = Inr ([3], ?p')"
    by (simp add: PrioritySignal_add_def PrioritySignal_remove_def PriorityCompare_def
        pre_increment_def INT_MAX_def)
  have h8: "9 \<notin> getCallbackId ` set (callbackList ?p)" by simp
  note t = remove_effect [where cs = "[Add (logging_listener 1), Add (logging_listener 2)]"
      and ids = "[1, 2]" and s = ?s and i = 1
      and cs' = "[Add (logging_listener 3), Dispatch 5 []]" and ids' = "[3]" and s' = ?s'
      and x = 7 and w = "[]" and j = 5 and t = ?s
      and ?c0.0 = 0 and pcs = "[PAdd (logging_listener 1) 0, PAdd (logging_listener 2) 100]"
      and pids = "[1, 2]" and p = ?p and k = 2
      and pcs' = "[PAdd (logging_listener 3) 50]" and pids' = "[3]" and p' = ?p'
      and y = 7 and v = "[]" and l = 9 and q = ?p]
  from t h1 h2 h3 have c1: "1 \<notin> fst ` set (calls (Signal_dispatch ?s' 7 []))" by blast
  from t h4 have c2: "Signal_remove ?s 5 = ?s" by blast
  from t h5 h6 h7 have c3: "2 \<notin> fst ` set (calls (PrioritySignal_dispatch ?p' 7 []))" by blast
  from t h8 have c4: "PrioritySignal_remove ?p 9 = ?p" by blast
  from h1 h3 c1 c2 h5 h7 c3 c4 show ?thesis by (intro conjI)
qed

subsection \<open>Exceptions\<close>



subsection \<open>\<^verbatim>\<open>removeAll\<close>\<close>

text \<open>
  C7. For \<^verbatim>\<open>Signal\<close> and for \<^verbatim>\<open>PrioritySignal\<close>, in any state, calling \<^verbatim>\<open>removeAll\<close> twice
  in a row leaves exactly the object that calling it once leaves.
\<close>

theorem removeAll_idempotent:
  "Signal_removeAll (Signal_removeAll s) = Signal_removeAll s \<and>
   PrioritySignal_removeAll (PrioritySignal_removeAll p) = PrioritySignal_removeAll p"
  by (simp add: Signal_removeAll_def PrioritySignal_removeAll_def map_clear_def)

subsection \<open>The order of a \<^verbatim>\<open>Signal\<close>\<close>

text \<open>
  C8. In every state of a \<^verbatim>\<open>Signal\<close> the keys of the map ascend strictly and stand in
  the order in which \<^verbatim>\<open>add\<close> returned them; the identifiers \<^verbatim>\<open>dispatch\<close> calls are an
  initial part of that sequence, all of it when the dispatch returns. A second dispatch
  with nothing in between walks through the same sequence.
\<close>

theorem Signal_dispatch_order:
  "Signal_run Signal_init cs = Inr (ids, s) \<Longrightarrow>
   sorted_wrt (<) (map fst (callbackMap s)) \<and>
   map fst (callbackMap s) = filter (\<lambda>i. i \<in> fst ` set (callbackMap s)) ids \<and>
   prefix (map fst (calls (Signal_dispatch s x w))) (map fst (callbackMap s)) \<and>
   (\<forall>w'. outcome (Signal_dispatch s x w) = Inr w' \<longrightarrow>
         map fst (calls (Signal_dispatch s x w)) = map fst (callbackMap s)) \<and>
   prefix (map fst (calls (Signal_dispatch (after (Signal_dispatch s x w)) x2 w2)))
          (map fst (callbackMap s)) \<and>
   (\<forall>w' w2'. outcome (Signal_dispatch s x w) = Inr w' \<and>
            outcome (Signal_dispatch (after (Signal_dispatch s x w)) x2 w2) = Inr w2' \<longrightarrow>
         map fst (calls (Signal_dispatch (after (Signal_dispatch s x w)) x2 w2)) =
         map fst (calls (Signal_dispatch s x w)))"
proof -
  assume run: "Signal_run Signal_init cs = Inr (ids, s)"
  note init = Signal_run_init [OF run]
  from init(1) have srt: "sorted_wrt (<) (map fst (callbackMap s))"
    by (simp add: Signal_inv_def)
  from init(2) have "sorted_wrt (<) ids" by simp
  with srt init(3) have reg: "map fst (callbackMap s) = filter (\<lambda>i. i \<in> fst ` set (callbackMap s)) ids"
    using filter_mem_sorted [of "map fst (callbackMap s)" ids] by simp
  have pre: "prefix (map fst (calls (Signal_dispatch s x w))) (map fst (callbackMap s))" for x :: 'a and w
    using map_mono_prefix [OF Signal_dispatch_loop_prefix, of fst "callbackMap s" x w]
    by (simp add: Signal_dispatch_calls comp_def)
  have ret: "map fst (calls (Signal_dispatch s x w)) = map fst (callbackMap s)"
    if "outcome (Signal_dispatch s x w) = Inr w'" for x :: 'a and w w'
    using Signal_dispatch_loop_returns [of "callbackMap s" x w w'] that
    by (simp add: Signal_dispatch_calls Signal_dispatch_outcome comp_def)
  from srt reg pre [of x w] pre [of x2 w2] ret [of x w] ret [of x2 w2] show ?thesis
    by (simp add: Signal_dispatch_after)
qed

theorem Signal_dispatch_order_witness:
  "Signal_run Signal_init
     [Add (logging_listener 1), Add (logging_listener 2), Remove 1, Add (logging_listener 3)] =
     Inr ([1, 2, 3],
          \<lparr>Signal.callbackId = 3,
           callbackMap = [(2, logging_listener 2), (3, logging_listener 3)]\<rparr>) \<and>
   outcome (Signal_dispatch
          \<lparr>Signal.callbackId = 3,
           callbackMap = [(2, logging_listener 2), (3, logging_listener 3)]\<rparr> 7 []) =
     Inr [(2, 7), (3, 7)] \<and>
   outcome (Signal_dispatch
          \<lparr>Signal.callbackId = 3,
           callbackMap = [(2, logging_listener 2), (3, logging_listener 3)]\<rparr> 8 [(2, 7), (3, 7)]) =
     Inr [(2, 7), (3, 7), (2, 8), (3, 8)] \<and>
   map fst (calls (Signal_dispatch
          \<lparr>Signal.callbackId = 3,
           callbackMap = [(2, logging_listener 2), (3, logging_listener 3)]\<rparr> 7 [])) = [2, 3] \<and>
   map fst (calls (Signal_dispatch
          \<lparr>Signal.callbackId = 3,
           callbackMap = [(2, logging_listener 2), (3, logging_listener 3)]\<rparr> 8 [(2, 7), (3, 7)])) =
     [2, 3]"
proof -
  let ?s = "\<lparr>Signal.callbackId = 3,
             callbackMap = [(2, logging_listener 2), (3, logging_listener 3)]\<rparr>"
  have h1: "Signal_run Signal_init
      [Add (logging_listener 1), Add (logging_listener 2), Remove 1, Add (logging_listener 3)] =
      Inr ([1, 2, 3], ?s)"
    by (simp add: Signal_init_def Signal_add_def Signal_remove_def pre_increment_def INT_MAX_def)
  have h2: "outcome (Signal_dispatch ?s 7 []) = Inr [(2, 7), (3, 7)]"
    by (simp add: Signal_dispatch_def logging_listener_def)
  have h3: "outcome (Signal_dispatch ?s 8 [(2, 7), (3, 7)]) = Inr [(2, 7), (3, 7), (2, 8), (3, 8)]"
    by (simp add: Signal_dispatch_def logging_listener_def)
  have a: "after (Signal_dispatch ?s 7 []) = ?s"
    by (simp add: Signal_dispatch_def logging_listener_def)
  note t = Signal_dispatch_order [OF h1, of 7 "[]" 8 "[(2, 7), (3, 7)]"]
  from t h2 have c1: "map fst (calls (Signal_dispatch ?s 7 [])) = [2, 3]"
    by simp
  from t h2 h3 have c2: "map fst (calls (Signal_dispatch ?s 8 [(2, 7), (3, 7)])) = [2, 3]"
    unfolding a by simp
  from h1 h2 h3 c1 c2 show ?thesis by (intro conjI)
qed

subsection \<open>Frame conditions\<close>

text \<open>
  C9. \<^verbatim>\<open>PrioritySignal::remove(id)\<close> leaves the list with exactly the entries whose
  identifier is \<open>id\<close> deleted, all others as they were and in the order they had; the
  counter is not touched.
\<close>

theorem PrioritySignal_remove_frame:
  "callbackList (PrioritySignal_remove s cbId) =
     filter (\<lambda>e. getCallbackId e \<noteq> cbId) (callbackList s) \<and>
   PrioritySignal.callbackId (PrioritySignal_remove s cbId) = PrioritySignal.callbackId s"
  by (simp add: PrioritySignal_remove_def remove_loop_filter)

text \<open>
  C10. For both classes \<^verbatim>\<open>dispatch\<close> leaves the object as it found it (entries,
  identifiers, priorities, order and counter), whether it returns or throws, and so does
  any number of dispatches in a row. The listeners here act on the rest of the program
  only, which is the proviso of the claim.
\<close>

theorem dispatch_frame:
  "after (Signal_dispatch s x w) = s \<and>
   Signal_run s (map (\<lambda>d. Dispatch (fst d) (snd d)) ds) = Inr ([], s) \<and>
   after (PrioritySignal_dispatch p y v) = p \<and>
   PrioritySignal_run p (map (\<lambda>d. PDispatch (fst d) (snd d)) pds) = Inr ([], p)"
  by (simp add: Signal_dispatch_after PrioritySignal_dispatch_after
      Signal_run_dispatches PrioritySignal_run_dispatches)

end
